theory Spec2Isabelle
  imports Main "HOL-Library.Word"
begin

section \<open>Go values and the outside world\<close>

text \<open>
  The program of \<^verbatim>\<open>main.go\<close> and \<^verbatim>\<open>main_test.go\<close> talks to a graph database
  through a driver, writes log lines and sleeps. All of that is made explicit: a
  \<open>world\<close> holds what the database will answer to each driver call, how many calls
  were made, and the chronological list of the effects performed so far.
\<close>

text \<open>
  A Go \<^verbatim>\<open>error\<close> value: its dynamic type, which is what a type switch or
  \<^verbatim>\<open>errors.As\<close> sees, and the text its \<^verbatim>\<open>Error\<close> method returns; \<^verbatim>\<open>nil\<close> is \<open>None\<close>.
\<close>

datatype error = Error (dynamic_type: string) (message: string)

text \<open>
  \<^verbatim>\<open>errors.New\<close> builds a value of the one type \<^verbatim>\<open>*errors.errorString\<close>, which holds
  nothing but the text. \<^verbatim>\<open>fmt.Errorf\<close> with a format that has no \<^verbatim>\<open>%w\<close> verb formats the
  text and returns \<^verbatim>\<open>errors.New\<close> of it.
\<close>

definition errors_New :: "string \<Rightarrow> error" where
  "errors_New text = Error ''*errors.errorString'' text"

text \<open>
  The values of a record returned by the driver (\<^verbatim>\<open>[]any\<close>): the dynamic types a
  query may yield.
\<close>

datatype any = Int64 "64 word" | Float64 "64 word" | String string | Bool bool | Nil

text \<open>
  \<^verbatim>\<open>neo4j.Record\<close> and \<^verbatim>\<open>neo4j.EagerResult\<close>. \<^verbatim>\<open>Records\<close> is a slice of pointers,
  so an element may be \<^verbatim>\<open>nil\<close>.
\<close>

record Record =
  Values :: "any list"

record EagerResult =
  Records :: "Record option list"

text \<open>
  Effects, in the order in which they happen. \<open>Second\<close> is \<^verbatim>\<open>time.Second\<close>, a
  \<^verbatim>\<open>time.Duration\<close> counted in nanoseconds.
\<close>

datatype event =
    VerifyConnectivity "error option"
  | SlogError string string int
  | SlogInfo string
  | Sleep int
  | LogFatalf string
  | NewSession
  | SessionClose
  | ExecuteQuery string

definition Second :: int where
  "Second = 1000000000"

record world =
  connectivity :: "nat \<Rightarrow> error option"
  verify_calls :: nat
  query_result :: "nat \<Rightarrow> string \<Rightarrow> error + EagerResult"
  query_calls :: nat
  events :: "event list"

text \<open>
  How a Go function call ends: it returns a value, the process exits
  (\<^verbatim>\<open>log.Fatalf\<close> calls \<^verbatim>\<open>os.Exit(1)\<close>), or it panics.
\<close>

datatype panic = IndexOutOfRange | NilDereference | TypeAssertion

datatype 'a outcome = Returns 'a | Exits int | Panics panic

subsection \<open>The driver and the standard library\<close>

definition emit :: "event \<Rightarrow> world \<Rightarrow> world" where
  "emit e w = w\<lparr>events := events w @ [e]\<rparr>"

text \<open>\<^verbatim>\<open>driver.VerifyConnectivity(ctx)\<close>: the next answer of the database.\<close>

definition driver_VerifyConnectivity :: "world \<Rightarrow> error option \<times> world" where
  "driver_VerifyConnectivity w =
     (let err = connectivity w (verify_calls w)
      in (err, emit (VerifyConnectivity err) (w\<lparr>verify_calls := verify_calls w + 1\<rparr>)))"

text \<open>\<^verbatim>\<open>neo4j.ExecuteQuery(ctx, driver, query, ...)\<close> with the eager transformer.\<close>

definition neo4j_ExecuteQuery :: "string \<Rightarrow> world \<Rightarrow> (error + EagerResult) \<times> world" where
  "neo4j_ExecuteQuery query w =
     (query_result w (query_calls w) query,
      emit (ExecuteQuery query) (w\<lparr>query_calls := query_calls w + 1\<rparr>))"

definition slog_Error :: "string \<Rightarrow> string \<Rightarrow> int \<Rightarrow> world \<Rightarrow> world" where
  "slog_Error msg key v w = emit (SlogError msg key v) w"

definition slog_Info :: "string \<Rightarrow> world \<Rightarrow> world" where
  "slog_Info msg w = emit (SlogInfo msg) w"

definition time_Sleep :: "int \<Rightarrow> world \<Rightarrow> world" where
  "time_Sleep d w = emit (Sleep d) w"

text \<open>
  \<^verbatim>\<open>log.Fatalf\<close> writes the message and calls \<^verbatim>\<open>os.Exit(1)\<close>; the exit itself is the
  \<open>Exit 1\<close> or \<open>Exits 1\<close> of the caller, and no deferred call runs after it.
\<close>

definition log_Fatalf :: "string \<Rightarrow> world \<Rightarrow> world" where
  "log_Fatalf msg w = emit (LogFatalf msg) w"

definition driver_NewSession :: "world \<Rightarrow> world" where
  "driver_NewSession w = emit NewSession w"

definition session_Close :: "world \<Rightarrow> world" where
  "session_Close w = emit SessionClose w"

text \<open>The verb \<^verbatim>\<open>%d\<close> of package \<^verbatim>\<open>fmt\<close>: an integer in decimal.\<close>

definition digit :: "nat \<Rightarrow> char" where
  "digit n = ''0123456789'' ! n"

fun decimal :: "nat \<Rightarrow> string" where
  "decimal n = (if n < 10 then [digit n] else decimal (n div 10) @ [digit (n mod 10)])"

declare decimal.simps [simp del]

definition fmt_d :: "int \<Rightarrow> string" where
  "fmt_d i = (if i < 0 then CHR ''-'' # decimal (nat (- i)) else decimal (nat i))"

section \<open>The readiness wait of \<^verbatim>\<open>main.go\<close>\<close>

text \<open>
  What one pass through the body of a \<^verbatim>\<open>for\<close> loop decides: go round again, leave
  the loop (\<^verbatim>\<open>break\<close>), return from the function, or end the process.
\<close>

datatype 'a control = Continue | Break | Return 'a | Exit int

text \<open>
  The body of the loop of \<^verbatim>\<open>waitFor\<close> (lines 50 to 63), from the value of \<^verbatim>\<open>attemps\<close>
  at the head of the loop to its value at the end of the pass. \<^verbatim>\<open>attemps\<close> is a
  Go \<^verbatim>\<open>int\<close>; it never leaves the range 0 .. 101 (lemma \<open>attemps_bound\<close>),
  so no width of \<^verbatim>\<open>int\<close> wraps and an unbounded integer models it.
\<close>

definition waitFor_body :: "int \<Rightarrow> world \<Rightarrow> error option control \<times> int \<times> world" where
  "waitFor_body attemps0 w0 =
     (let attemps = attemps0 + 1;
          (err, w1) = driver_VerifyConnectivity w0
      in case err of
           Some e \<Rightarrow>
             (let w2 = slog_Error ''Could not connect to memgraph'' ''attempt'' attemps w1
              in if attemps > 100
                 then (Return (Some (errors_New
                         (''could not connect to memgraph even though it took ''
                          @ fmt_d attemps @ '' attemps''))), attemps, w2)
                 else (Continue, attemps, time_Sleep (1 * Second) w2))
         | None \<Rightarrow> (Break, attemps, slog_Info ''Connected to memgraph'' w1))"

function waitFor_loop :: "int \<Rightarrow> world \<Rightarrow> error option outcome \<times> world" where
  "waitFor_loop attemps w =
     (case waitFor_body attemps w of
        (Continue, attemps', w') \<Rightarrow> waitFor_loop attemps' w'
      | (Break, attemps', w') \<Rightarrow> (Returns None, w')
      | (Return err, attemps', w') \<Rightarrow> (Returns err, w')
      | (Exit code, attemps', w') \<Rightarrow> (Exits code, w'))"
  by pat_completeness auto
termination
  by (relation "measure (\<lambda>(attemps, w). nat (101 - attemps))")
     (auto simp: waitFor_body_def Let_def split: prod.splits option.splits if_splits)

declare waitFor_loop.simps [simp del]

definition waitFor :: "world \<Rightarrow> error option outcome \<times> world" where
  "waitFor w = waitFor_loop 0 w"

text \<open>
  The same loop, observed: the value of \<^verbatim>\<open>attemps\<close> and the world at the end of each
  pass through the body, in order.
\<close>

function waitFor_passes :: "int \<Rightarrow> world \<Rightarrow> (int \<times> world) list" where
  "waitFor_passes attemps w =
     (case waitFor_body attemps w of
        (Continue, attemps', w') \<Rightarrow> (attemps', w') # waitFor_passes attemps' w'
      | (Break, attemps', w') \<Rightarrow> [(attemps', w')]
      | (Return err, attemps', w') \<Rightarrow> [(attemps', w')]
      | (Exit code, attemps', w') \<Rightarrow> [(attemps', w')])"
  by pat_completeness auto
termination
  by (relation "measure (\<lambda>(attemps, w). nat (101 - attemps))")
     (auto simp: waitFor_body_def Let_def split: prod.splits option.splits if_splits)

declare waitFor_passes.simps [simp del]

text \<open>
  The specification calls the error of line 60 \<open>ConnectivityTimeout\<close>; in the code it is
  the value of \<^verbatim>\<open>fmt.Errorf\<close>, whose message holds the number of attempts.
\<close>

definition ConnectivityTimeout :: "int \<Rightarrow> error" where
  "ConnectivityTimeout n =
     errors_New (''could not connect to memgraph even though it took '' @ fmt_d n @ '' attemps'')"

text \<open>
  The specification asks for a typed error. Following its words, an error is typed
  when its dynamic type tells the failure apart, which the type shared by all values
  of \<^verbatim>\<open>errors.New\<close> and \<^verbatim>\<open>fmt.Errorf\<close> does not; this is the least that any reading of
  "typed" requires.
\<close>

definition typed_error :: "error \<Rightarrow> bool" where
  "typed_error e = (dynamic_type e \<noteq> ''*errors.errorString'')"

section \<open>The count queries of \<^verbatim>\<open>main.go\<close>\<close>

text \<open>
  \<^verbatim>\<open>result.Records[0].Values[0].(int64)\<close>: two index expressions, a pointer
  dereference and a type assertion, each of which panics when it fails.
\<close>

definition countAllNodes :: "world \<Rightarrow> (64 word \<times> error option) outcome \<times> world" where
  "countAllNodes w0 =
     (let query = ''MATCH (n) RETURN count(n);'';
          (res, w1) = neo4j_ExecuteQuery query w0
      in case res of
           Inl err \<Rightarrow> (Returns (0, Some err), w1)
         | Inr result \<Rightarrow>
             (case Records result of
                [] \<Rightarrow> (Panics IndexOutOfRange, w1)
              | None # _ \<Rightarrow> (Panics NilDereference, w1)
              | Some r # _ \<Rightarrow>
                  (case Values r of
                     [] \<Rightarrow> (Panics IndexOutOfRange, w1)
                   | Int64 n # _ \<Rightarrow> (Returns (n, None), w1)
                   | _ # _ \<Rightarrow> (Panics TypeAssertion, w1))))"

definition countAllEdges :: "world \<Rightarrow> (64 word \<times> error option) outcome \<times> world" where
  "countAllEdges w0 =
     (let query = ''MATCH ()-[]->() RETURN count(*);'';
          (res, w1) = neo4j_ExecuteQuery query w0
      in case res of
           Inl err \<Rightarrow> (Returns (0, Some err), w1)
         | Inr result \<Rightarrow>
             (case Records result of
                [] \<Rightarrow> (Panics IndexOutOfRange, w1)
              | None # _ \<Rightarrow> (Panics NilDereference, w1)
              | Some r # _ \<Rightarrow>
                  (case Values r of
                     [] \<Rightarrow> (Panics IndexOutOfRange, w1)
                   | Int64 n # _ \<Rightarrow> (Returns (n, None), w1)
                   | _ # _ \<Rightarrow> (Panics TypeAssertion, w1))))"

section \<open>The test harness of \<^verbatim>\<open>main_test.go\<close>\<close>

text \<open>
  \<^verbatim>\<open>deleteEverything\<close>: the deferred \<^verbatim>\<open>session.Close\<close> runs when the function returns,
  not when \<^verbatim>\<open>log.Fatalf\<close> ends the process.
\<close>

definition deleteEverything :: "world \<Rightarrow> error option outcome \<times> world" where
  "deleteEverything w0 =
     (let w1 = driver_NewSession w0;
          query = ''MATCH (n) DETACH DELETE n;'';
          (res, w2) = neo4j_ExecuteQuery query w1
      in case res of
           Inl err \<Rightarrow> (Exits 1, log_Fatalf (''Could not delete everything: '' @ message err) w2)
         | Inr result \<Rightarrow> (Returns None, session_Close w2))"

text \<open>
  The readiness loop of \<^verbatim>\<open>TestMain\<close> (lines 72 to 85): its body, the loop, and the
  loop started with \<^verbatim>\<open>attempts := 0\<close>.
\<close>

definition TestMain_wait_body :: "int \<Rightarrow> world \<Rightarrow> unit control \<times> int \<times> world" where
  "TestMain_wait_body attempts0 w0 =
     (let attempts = attempts0 + 1;
          (err, w1) = driver_VerifyConnectivity w0
      in case err of
           None \<Rightarrow> (Break, attempts, w1)
         | Some e \<Rightarrow>
             if attempts > 10
             then (Exit 1, attempts, log_Fatalf (''Could not connect to memgraph: '' @ message e) w1)
             else (Continue, attempts, time_Sleep (1 * Second) w1))"

function TestMain_wait_loop :: "int \<Rightarrow> world \<Rightarrow> unit outcome \<times> world" where
  "TestMain_wait_loop attempts w =
     (case TestMain_wait_body attempts w of
        (Continue, attempts', w') \<Rightarrow> TestMain_wait_loop attempts' w'
      | (Break, attempts', w') \<Rightarrow> (Returns (), w')
      | (Return u, attempts', w') \<Rightarrow> (Returns u, w')
      | (Exit code, attempts', w') \<Rightarrow> (Exits code, w'))"
  by pat_completeness auto
termination
  by (relation "measure (\<lambda>(attempts, w). nat (11 - attempts))")
     (auto simp: TestMain_wait_body_def Let_def split: prod.splits option.splits if_splits)

declare TestMain_wait_loop.simps [simp del]

definition TestMain_wait :: "world \<Rightarrow> unit outcome \<times> world" where
  "TestMain_wait w = TestMain_wait_loop 0 w"

section \<open>Reading a trace\<close>

text \<open>The effects a call added to the world it started in.\<close>

definition emitted :: "world \<Rightarrow> world \<Rightarrow> event list" where
  "emitted w w' = drop (length (events w)) (events w')"

fun is_probe :: "event \<Rightarrow> bool" where
  "is_probe (VerifyConnectivity r) = True"
| "is_probe e = False"

fun is_failed_probe :: "event \<Rightarrow> bool" where
  "is_failed_probe (VerifyConnectivity (Some e)) = True"
| "is_failed_probe e = False"

fun is_sleep :: "event \<Rightarrow> bool" where
  "is_sleep (Sleep d) = True"
| "is_sleep e = False"

fun is_slog :: "event \<Rightarrow> bool" where
  "is_slog (SlogError msg key v) = True"
| "is_slog (SlogInfo msg) = True"
| "is_slog e = False"

fun is_fatal :: "event \<Rightarrow> bool" where
  "is_fatal (LogFatalf msg) = True"
| "is_fatal e = False"


definition probes_and_sleeps :: "event list \<Rightarrow> event list" where
  "probes_and_sleeps tr = filter (\<lambda>e. is_probe e \<or> is_sleep e) tr"

text \<open>
  The effects of \<open>k\<close> failed passes of the loop of \<^verbatim>\<open>waitFor\<close> that started with the
  counter at \<open>a\<close>, and of the loop of \<^verbatim>\<open>TestMain\<close>.
\<close>

fun failed_passes :: "world \<Rightarrow> int \<Rightarrow> nat \<Rightarrow> event list" where
  "failed_passes w a 0 = []"
| "failed_passes w a (Suc k) =
     failed_passes w a k @
     [VerifyConnectivity (connectivity w (verify_calls w + k)),
      SlogError ''Could not connect to memgraph'' ''attempt'' (a + 1 + int k),
      Sleep Second]"

fun quiet_passes :: "world \<Rightarrow> nat \<Rightarrow> event list" where
  "quiet_passes w 0 = []"
| "quiet_passes w (Suc k) =
     quiet_passes w k @ [VerifyConnectivity (connectivity w (verify_calls w + k)), Sleep Second]"

text \<open>
  Two concrete worlds: a database that refuses every connection, and one that accepts
  the connection after refusing \<open>k\<close> times.
\<close>

definition refusing :: world where
  "refusing =
     \<lparr>connectivity = (\<lambda>n. Some (Error ''*neo4j.ConnectivityError'' ''connection refused'')), verify_calls = 0,
      query_result = (\<lambda>n q. Inl (Error ''*neo4j.ConnectivityError'' ''connection refused'')), query_calls = 0, events = []\<rparr>"

definition ready_after :: "nat \<Rightarrow> world" where
  "ready_after k =
     \<lparr>connectivity = (\<lambda>n. if n < k then Some (Error ''*neo4j.ConnectivityError'' ''connection refused'') else None),
      verify_calls = 0,
      query_result = (\<lambda>n q. Inr \<lparr>Records = [Some \<lparr>Values = [Int64 0]\<rparr>]\<rparr>),
      query_calls = 0, events = []\<rparr>"

definition unauthorized :: world where
  "unauthorized =
     \<lparr>connectivity = (\<lambda>n. Some (Error ''*neo4j.Neo4jError'' ''authentication failure'')), verify_calls = 0,
      query_result = (\<lambda>n q. Inl (Error ''*neo4j.Neo4jError'' ''authentication failure'')), query_calls = 0, events = []\<rparr>"

text \<open>A database that gives the same answer to every query.\<close>

definition answering :: "error + EagerResult \<Rightarrow> world" where
  "answering res =
     \<lparr>connectivity = (\<lambda>n. None), verify_calls = 0,
      query_result = (\<lambda>n q. res), query_calls = 0, events = []\<rparr>"

text \<open>
  How many of the next \<open>n\<close> answers of the database are failures before the first
  success.
\<close>

definition leading_failures :: "world \<Rightarrow> nat \<Rightarrow> nat" where
  "leading_failures w n =
     length (takeWhile (\<lambda>i. connectivity w (verify_calls w + i) \<noteq> None) [0..<n])"

section \<open>What the loop of \<^verbatim>\<open>waitFor\<close> computes\<close>

lemma waitFor_body_fail:
  assumes "connectivity w (verify_calls w) = Some e"
  shows "waitFor_body a w =
     (if a + 1 > 100 then Return (Some (ConnectivityTimeout (a + 1))) else Continue,
      a + 1,
      w\<lparr>verify_calls := verify_calls w + 1,
        events := events w @
          [VerifyConnectivity (Some e), SlogError ''Could not connect to memgraph'' ''attempt'' (a + 1)]
          @ (if a + 1 > 100 then [] else [Sleep Second])\<rparr>)"
  using assms
  by (simp add: waitFor_body_def driver_VerifyConnectivity_def emit_def slog_Error_def
        time_Sleep_def ConnectivityTimeout_def Let_def)

lemma waitFor_body_ok:
  assumes "connectivity w (verify_calls w) = None"
  shows "waitFor_body a w =
     (Break, a + 1,
      w\<lparr>verify_calls := verify_calls w + 1,
        events := events w @ [VerifyConnectivity None, SlogInfo ''Connected to memgraph'']\<rparr>)"
  using assms
  by (simp add: waitFor_body_def driver_VerifyConnectivity_def emit_def slog_Info_def Let_def)

lemma leading_failures_le: "leading_failures w n \<le> n"
  unfolding leading_failures_def
  by (rule order_trans [OF length_takeWhile_le]) simp

lemma takeWhile_upt_prefix:
  "takeWhile P [0..<n] = [0..<length (takeWhile P [0..<n])]"
proof -
  have "takeWhile P [0..<n] = take (length (takeWhile P [0..<n])) [0..<n]"
    by (rule takeWhile_eq_take)
  also have "\<dots> = [0..<length (takeWhile P [0..<n])]"
    using length_takeWhile_le [of P "[0..<n]"] by (simp add: take_upt)
  finally show ?thesis .
qed

lemma leading_failures_fail:
  assumes "i < leading_failures w n"
  shows "connectivity w (verify_calls w + i) \<noteq> None"
proof -
  let ?P = "\<lambda>i. connectivity w (verify_calls w + i) \<noteq> None"
  have "takeWhile ?P [0..<n] = [0..<leading_failures w n]"
    unfolding leading_failures_def by (rule takeWhile_upt_prefix)
  with assms have "i \<in> set (takeWhile ?P [0..<n])"
    by simp
  then show ?thesis
    by (rule set_takeWhileD [THEN conjunct2])
qed

lemma leading_failures_stop:
  assumes "leading_failures w n < n"
  shows "connectivity w (verify_calls w + leading_failures w n) = None"
proof -
  let ?P = "\<lambda>i. connectivity w (verify_calls w + i) \<noteq> None"
  have "\<not> ?P ([0..<n] ! length (takeWhile ?P [0..<n]))"
    using assms unfolding leading_failures_def by (intro nth_length_takeWhile) simp
  then show ?thesis
    using assms unfolding leading_failures_def by simp
qed

lemma leading_failures_eq:
  assumes "\<forall>i<k. connectivity w (verify_calls w + i) \<noteq> None"
    and "k < n \<Longrightarrow> connectivity w (verify_calls w + k) = None" and "k \<le> n"
  shows "leading_failures w n = k"
proof (rule ccontr)
  assume neq: "leading_failures w n \<noteq> k"
  show False
  proof (cases "leading_failures w n < k")
    case True
    then have "leading_failures w n < n" using assms(3) by simp
    from leading_failures_stop [OF this] assms(1) True show False by simp
  next
    case False
    with neq have "k < leading_failures w n" by simp
    moreover then have "k < n" using leading_failures_le [of w n] by simp
    ultimately show False
      using leading_failures_fail [of k w n] assms(2) by simp
  qed
qed

lemma waitFor_loop_failures:
  assumes "\<forall>i<k. connectivity w (verify_calls w + i) \<noteq> None" and "a + int k \<le> 100"
  shows "waitFor_loop a w =
         waitFor_loop (a + int k)
           (w\<lparr>verify_calls := verify_calls w + k, events := events w @ failed_passes w a k\<rparr>)"
  using assms
proof (induction k)
  case 0
  then show ?case by simp
next
  case (Suc k)
  let ?w = "w\<lparr>verify_calls := verify_calls w + k, events := events w @ failed_passes w a k\<rparr>"
  from Suc.prems obtain e where e': "connectivity w (verify_calls w + k) = Some e"
    by auto
  then have e: "connectivity ?w (verify_calls ?w) = Some e"
    by simp
  have "waitFor_loop a w = waitFor_loop (a + int k) ?w"
    using Suc by simp
  also have "\<dots> = waitFor_loop (a + int (Suc k))
      (w\<lparr>verify_calls := verify_calls w + Suc k, events := events w @ failed_passes w a (Suc k)\<rparr>)"
  proof -
    have "waitFor_body (a + int k) ?w =
        (Continue, a + int (Suc k),
         w\<lparr>verify_calls := verify_calls w + Suc k, events := events w @ failed_passes w a (Suc k)\<rparr>)"
      using Suc.prems(2) e' unfolding waitFor_body_fail [OF e] by (simp add: add.commute add.left_commute)
    then show ?thesis
      by (subst waitFor_loop.simps) simp
  qed
  finally show ?case .
qed

lemma waitFor_loop_break:
  assumes "connectivity w (verify_calls w) = None"
  shows "waitFor_loop a w =
     (Returns None,
      w\<lparr>verify_calls := verify_calls w + 1,
        events := events w @ [VerifyConnectivity None, SlogInfo ''Connected to memgraph'']\<rparr>)"
  by (subst waitFor_loop.simps) (simp add: waitFor_body_ok [OF assms])

lemma waitFor_loop_return:
  assumes "connectivity w (verify_calls w) = Some e" and "a \<ge> 100"
  shows "waitFor_loop a w =
     (Returns (Some (ConnectivityTimeout (a + 1))),
      w\<lparr>verify_calls := verify_calls w + 1,
        events := events w @
          [VerifyConnectivity (Some e), SlogError ''Could not connect to memgraph'' ''attempt'' (a + 1)]\<rparr>)"
  using assms(2) by (subst waitFor_loop.simps) (simp add: waitFor_body_fail [OF assms(1)])

lemma waitFor_success:
  assumes "\<forall>i<k. connectivity w (verify_calls w + i) \<noteq> None"
    and "connectivity w (verify_calls w + k) = None" and "k \<le> 100"
  shows "waitFor w =
     (Returns None,
      w\<lparr>verify_calls := verify_calls w + Suc k,
        events := events w @ failed_passes w 0 k @
          [VerifyConnectivity None, SlogInfo ''Connected to memgraph'']\<rparr>)"
proof -
  let ?w = "w\<lparr>verify_calls := verify_calls w + k, events := events w @ failed_passes w 0 k\<rparr>"
  have "waitFor w = waitFor_loop (int k) ?w"
    using waitFor_loop_failures [of k w 0] assms(1,3) by (simp add: waitFor_def)
  moreover have "connectivity ?w (verify_calls ?w) = None"
    using assms(2) by simp
  ultimately show ?thesis
    by (simp add: waitFor_loop_break)
qed

lemma waitFor_exhausted:
  assumes "\<forall>i<101. connectivity w (verify_calls w + i) \<noteq> None"
  shows "waitFor w =
     (Returns (Some (ConnectivityTimeout 101)),
      w\<lparr>verify_calls := verify_calls w + 101,
        events := events w @ failed_passes w 0 100 @
          [VerifyConnectivity (connectivity w (verify_calls w + 100)),
           SlogError ''Could not connect to memgraph'' ''attempt'' 101]\<rparr>)"
proof -
  let ?w = "w\<lparr>verify_calls := verify_calls w + 100, events := events w @ failed_passes w 0 100\<rparr>"
  have "waitFor w = waitFor_loop 100 ?w"
    using waitFor_loop_failures [of 100 w 0] assms by (simp add: waitFor_def)
  moreover obtain e where e: "connectivity w (verify_calls w + 100) = Some e"
    using assms [THEN spec, of 100] by auto
  moreover from e have "connectivity ?w (verify_calls ?w) = Some e"
    by simp
  ultimately show ?thesis
    by (simp add: waitFor_loop_return)
qed

lemma waitFor_cases [case_names success exhausted]:
  obtains k where "k \<le> 100" and "\<forall>i<k. connectivity w (verify_calls w + i) \<noteq> None"
      and "connectivity w (verify_calls w + k) = None"
      and "waitFor w =
        (Returns None,
         w\<lparr>verify_calls := verify_calls w + Suc k,
           events := events w @ failed_passes w 0 k @
             [VerifyConnectivity None, SlogInfo ''Connected to memgraph'']\<rparr>)"
  | "\<forall>i<101. connectivity w (verify_calls w + i) \<noteq> None"
      and "waitFor w =
        (Returns (Some (ConnectivityTimeout 101)),
         w\<lparr>verify_calls := verify_calls w + 101,
           events := events w @ failed_passes w 0 100 @
             [VerifyConnectivity (connectivity w (verify_calls w + 100)),
              SlogError ''Could not connect to memgraph'' ''attempt'' 101]\<rparr>)"
proof (cases "leading_failures w 101 < 101")
  case True
  let ?k = "leading_failures w 101"
  have fails: "\<forall>i<?k. connectivity w (verify_calls w + i) \<noteq> None"
    using leading_failures_fail by blast
  have stop: "connectivity w (verify_calls w + ?k) = None"
    using True by (rule leading_failures_stop)
  from True have le: "?k \<le> 100" by simp
  show ?thesis
    using that(1) [OF le fails stop waitFor_success [OF fails stop le]] .
next
  case False
  with leading_failures_le [of w 101] have "leading_failures w 101 = 101" by simp
  then have fails: "\<forall>i<101. connectivity w (verify_calls w + i) \<noteq> None"
    using leading_failures_fail [of _ w 101] by simp
  show ?thesis
    using that(2) [OF fails waitFor_exhausted [OF fails]] .
qed

lemma emitted_append [simp]:
  "emitted w (w\<lparr>verify_calls := n, events := events w @ tr\<rparr>) = tr"
  by (simp add: emitted_def)

lemma probes_failed_passes [simp]:
  "length (filter is_probe (failed_passes w a k)) = k"
  by (induction k) simp_all

lemma fatal_failed_passes [simp]:
  "filter is_fatal (failed_passes w a k) = []"
  by (induction k) simp_all

lemma slog_failed_passes:
  "filter is_slog (failed_passes w a k) =
     map (\<lambda>i. SlogError ''Could not connect to memgraph'' ''attempt'' (a + 1 + int i)) [0..<k]"
  by (induction k) simp_all

lemma failed_probes_failed_passes:
  "\<forall>i<k. connectivity w (verify_calls w + i) \<noteq> None \<Longrightarrow>
   length (filter is_failed_probe (failed_passes w a k)) = k"
  by (induction k) auto



lemma ConnectivityTimeout_101:
  "ConnectivityTimeout 101 =
     Error ''*errors.errorString''
       ''could not connect to memgraph even though it took 101 attemps''"
  by (simp add: ConnectivityTimeout_def errors_New_def fmt_d_def decimal.simps digit_def)

lemma waitFor_result:
  "fst (waitFor w) =
     Returns (if \<forall>i<101. connectivity w (verify_calls w + i) \<noteq> None
              then Some (ConnectivityTimeout 101) else None)"
proof (cases w rule: waitFor_cases)
  case (success k)
  then have "\<not> (\<forall>i<101. connectivity w (verify_calls w + i) \<noteq> None)"
    by (auto intro!: exI [of _ k])
  with success(4) show ?thesis by simp
next
  case exhausted
  then show ?thesis by simp
qed

lemma failed_passes_events [simp]:
  "failed_passes (w\<lparr>events := tr\<rparr>) a k = failed_passes w a k"
  by (induction k) simp_all

lemma waitFor_trace_frame:
  "fst (waitFor (w\<lparr>events := tr\<rparr>)) = fst (waitFor w) \<and>
   verify_calls (snd (waitFor (w\<lparr>events := tr\<rparr>))) = verify_calls (snd (waitFor w)) \<and>
   emitted (w\<lparr>events := tr\<rparr>) (snd (waitFor (w\<lparr>events := tr\<rparr>))) = emitted w (snd (waitFor w))"
proof (cases w rule: waitFor_cases)
  case (success k)
  let ?v = "w\<lparr>events := tr\<rparr>"
  have "\<forall>i<k. connectivity ?v (verify_calls ?v + i) \<noteq> None"
    and "connectivity ?v (verify_calls ?v + k) = None"
    using success(2,3) by simp_all
  from waitFor_success [OF this success(1)] success(4) show ?thesis
    by (simp add: emitted_def)
next
  case exhausted
  let ?v = "w\<lparr>events := tr\<rparr>"
  have "\<forall>i<101. connectivity ?v (verify_calls ?v + i) \<noteq> None"
    using exhausted(1) by simp
  from waitFor_exhausted [OF this] exhausted(2) show ?thesis
    by (simp add: emitted_def)
qed

lemma slog_failed_passes_0:
  "filter is_slog (failed_passes w 0 k) =
     map (\<lambda>i. SlogError ''Could not connect to memgraph'' ''attempt'' (int i)) [1..<Suc k]"
  by (induction k) simp_all


lemma waitFor_body_counter:
  "fst (snd (waitFor_body a w)) = a + 1 \<and>
   verify_calls (snd (snd (waitFor_body a w))) = verify_calls w + 1"
  by (cases "connectivity w (verify_calls w)") (simp_all add: waitFor_body_ok waitFor_body_fail)

lemma map_upt_shift:
  "f a # map (\<lambda>i. f (a + int i)) [1..<Suc n] = map (\<lambda>i. f (a - 1 + int i)) [1..<Suc (Suc n)]"
proof -
  have "map (\<lambda>i. f (a - 1 + int i)) [1..<Suc (Suc n)] =
        map (\<lambda>i. f (a - 1 + int i)) (1 # map Suc [1..<Suc n])"
    by (simp only: map_Suc_upt upt_conv_Cons [of 1 "Suc (Suc n)"])
  then show ?thesis
    by (simp add: comp_def)
qed

lemma waitFor_passes_shape:
  "waitFor_passes a w \<noteq> [] \<and>
   map fst (waitFor_passes a w) =
     map (\<lambda>i. a + int i) [1..<Suc (length (waitFor_passes a w))] \<and>
   map (\<lambda>p. verify_calls (snd p)) (waitFor_passes a w) =
     map (\<lambda>i. verify_calls w + i) [1..<Suc (length (waitFor_passes a w))] \<and>
   snd (waitFor_loop a w) = snd (last (waitFor_passes a w))"
proof (induction a w rule: waitFor_passes.induct)
  case (1 attemps w)
  obtain c a' w' where body: "waitFor_body attemps w = (c, a', w')"
    by (cases "waitFor_body attemps w") auto
  with waitFor_body_counter [of attemps w]
  have a': "a' = attemps + 1" and w': "verify_calls w' = verify_calls w + 1"
    by simp_all
  show ?case
  proof (cases c)
    case Continue
    note IH = "1.IH" [OF body [symmetric] Continue refl]
    have unf: "waitFor_passes attemps w = (a', w') # waitFor_passes a' w'"
      "waitFor_loop attemps w = waitFor_loop a' w'"
      using body Continue waitFor_passes.simps [of attemps w] waitFor_loop.simps [of attemps w]
      by simp_all
    let ?n = "length (waitFor_passes a' w')"
    have 1: "(attemps + 1) # map (\<lambda>i. attemps + 1 + int i) [1..<Suc ?n] =
          map (\<lambda>i. attemps + int i) [1..<Suc (Suc ?n)]"
      using map_upt_shift [of "\<lambda>x. x" "attemps + 1" ?n] by simp
    have 2: "(verify_calls w + 1) # map (\<lambda>i. verify_calls w + 1 + i) [1..<Suc ?n] =
          map (\<lambda>i. verify_calls w + i) [1..<Suc (Suc ?n)]"
    proof -
      have "map (\<lambda>i. verify_calls w + i) [1..<Suc (Suc ?n)] =
            map (\<lambda>i. verify_calls w + i) (1 # map Suc [1..<Suc ?n])"
        by (simp only: map_Suc_upt upt_conv_Cons [of 1 "Suc (Suc ?n)"])
      then show ?thesis
        by (simp add: comp_def)
    qed
    from IH show ?thesis
      unfolding unf using 1 2 by (simp add: a' w')
  next
    case Break
    with body waitFor_passes.simps [of attemps w] waitFor_loop.simps [of attemps w]
    show ?thesis
      by (simp add: a' w')
  next
    case (Return err)
    with body waitFor_passes.simps [of attemps w] waitFor_loop.simps [of attemps w]
    show ?thesis
      by (simp add: a' w')
  next
    case (Exit code)
    with body waitFor_passes.simps [of attemps w] waitFor_loop.simps [of attemps w]
    show ?thesis
      by (simp add: a' w')
  qed
qed


lemma attemps_bound:
  "p \<in> set (waitFor_passes a w) \<Longrightarrow> a < fst p \<and> fst p \<le> max (a + 1) 101"
proof (induction a w rule: waitFor_passes.induct)
  case (1 attemps w)
  obtain c a' w' where body: "waitFor_body attemps w = (c, a', w')"
    by (cases "waitFor_body attemps w") auto
  with waitFor_body_counter [of attemps w] have a': "a' = attemps + 1"
    by simp
  show ?case
  proof (cases c)
    case Continue
    have small: "attemps + 1 \<le> 100"
      using body Continue
      by (cases "connectivity w (verify_calls w)")
         (simp_all add: waitFor_body_ok waitFor_body_fail split: if_splits)
    from "1.prems" body Continue waitFor_passes.simps [of attemps w]
    have "p = (a', w') \<or> p \<in> set (waitFor_passes a' w')"
      by simp
    then show ?thesis
    proof
      assume "p = (a', w')"
      then show ?thesis by (simp add: a')
    next
      assume "p \<in> set (waitFor_passes a' w')"
      from "1.IH" [OF body [symmetric] Continue refl this] small show ?thesis
        by (simp add: a')
    qed
  next
    case Break
    with "1.prems" body waitFor_passes.simps [of attemps w] show ?thesis
      by (simp add: a')
  next
    case (Return err)
    with "1.prems" body waitFor_passes.simps [of attemps w] show ?thesis
      by (simp add: a')
  next
    case (Exit code)
    with "1.prems" body waitFor_passes.simps [of attemps w] show ?thesis
      by (simp add: a')
  qed
qed

lemma waitFor_passes_last:
  "fst (last (waitFor_passes a w)) = a + int (length (waitFor_passes a w)) \<and>
   verify_calls (snd (last (waitFor_passes a w))) = verify_calls w + length (waitFor_passes a w)"
proof -
  let ?ps = "waitFor_passes a w"
  let ?n = "length ?ps"
  note shape = waitFor_passes_shape [of a w]
  from shape have ne: "?ps \<noteq> []"
    by (rule conjunct1)
  then have upt: "[1..<Suc ?n] = [1..<?n] @ [?n]"
    by (intro upt_Suc_append) (simp add: Suc_leI)
  have "fst (last ?ps) = last (map fst ?ps)"
    using ne by (simp add: last_map)
  also have "\<dots> = last (map (\<lambda>i. a + int i) ([1..<?n] @ [?n]))"
    using shape [THEN conjunct2, THEN conjunct1] upt by (simp only:)
  also have "\<dots> = a + int ?n"
    by simp
  finally have counter: "fst (last ?ps) = a + int ?n" .
  have "verify_calls (snd (last ?ps)) = last (map (\<lambda>p. verify_calls (snd p)) ?ps)"
    using ne by (simp add: last_map)
  also have "\<dots> = last (map (\<lambda>i. verify_calls w + i) ([1..<?n] @ [?n]))"
    using shape [THEN conjunct2, THEN conjunct2, THEN conjunct1] upt by (simp only:)
  also have "\<dots> = verify_calls w + ?n"
    by simp
  finally show ?thesis
    using counter by simp
qed

lemma waitFor_exhausted_counter:
  assumes "\<forall>i<101. connectivity w (verify_calls w + i) \<noteq> None"
  shows "fst (last (waitFor_passes 0 w)) = 101"
proof -
  have "verify_calls (snd (waitFor w)) = verify_calls w + 101"
    using waitFor_exhausted [OF assms] by simp
  moreover have "snd (waitFor w) = snd (last (waitFor_passes 0 w))"
    using waitFor_passes_shape [of 0 w] by (simp add: waitFor_def)
  ultimately have "length (waitFor_passes 0 w) = 101"
    using waitFor_passes_last [of 0 w] by simp
  with waitFor_passes_last [of 0 w] show ?thesis
    by simp
qed

section \<open>What the loop of \<^verbatim>\<open>TestMain\<close> computes\<close>

lemma TestMain_wait_body_fail:
  assumes "connectivity w (verify_calls w) = Some e"
  shows "TestMain_wait_body a w =
     (if a + 1 > 10 then Exit 1 else Continue,
      a + 1,
      w\<lparr>verify_calls := verify_calls w + 1,
        events := events w @
          [VerifyConnectivity (Some e),
           if a + 1 > 10 then LogFatalf (''Could not connect to memgraph: '' @ message e)
           else Sleep Second]\<rparr>)"
  using assms
  by (simp add: TestMain_wait_body_def driver_VerifyConnectivity_def emit_def log_Fatalf_def
        time_Sleep_def Let_def)

lemma TestMain_wait_body_ok:
  assumes "connectivity w (verify_calls w) = None"
  shows "TestMain_wait_body a w =
     (Break, a + 1,
      w\<lparr>verify_calls := verify_calls w + 1, events := events w @ [VerifyConnectivity None]\<rparr>)"
  using assms
  by (simp add: TestMain_wait_body_def driver_VerifyConnectivity_def emit_def Let_def)

lemma TestMain_wait_loop_failures:
  assumes "\<forall>i<k. connectivity w (verify_calls w + i) \<noteq> None" and "a + int k \<le> 10"
  shows "TestMain_wait_loop a w =
         TestMain_wait_loop (a + int k)
           (w\<lparr>verify_calls := verify_calls w + k, events := events w @ quiet_passes w k\<rparr>)"
  using assms
proof (induction k)
  case 0
  then show ?case by simp
next
  case (Suc k)
  let ?w = "w\<lparr>verify_calls := verify_calls w + k, events := events w @ quiet_passes w k\<rparr>"
  from Suc.prems obtain e where e': "connectivity w (verify_calls w + k) = Some e"
    by auto
  then have e: "connectivity ?w (verify_calls ?w) = Some e"
    by simp
  have "TestMain_wait_loop a w = TestMain_wait_loop (a + int k) ?w"
    using Suc by simp
  also have "\<dots> = TestMain_wait_loop (a + int (Suc k))
      (w\<lparr>verify_calls := verify_calls w + Suc k, events := events w @ quiet_passes w (Suc k)\<rparr>)"
  proof -
    have "TestMain_wait_body (a + int k) ?w =
        (Continue, a + int (Suc k),
         w\<lparr>verify_calls := verify_calls w + Suc k, events := events w @ quiet_passes w (Suc k)\<rparr>)"
      using Suc.prems(2) e' unfolding TestMain_wait_body_fail [OF e]
      by (simp add: add.commute add.left_commute)
    then show ?thesis
      by (subst TestMain_wait_loop.simps) simp
  qed
  finally show ?case .
qed

lemma TestMain_wait_success:
  assumes "\<forall>i<k. connectivity w (verify_calls w + i) \<noteq> None"
    and "connectivity w (verify_calls w + k) = None" and "k \<le> 10"
  shows "TestMain_wait w =
     (Returns (),
      w\<lparr>verify_calls := verify_calls w + Suc k,
        events := events w @ quiet_passes w k @ [VerifyConnectivity None]\<rparr>)"
proof -
  let ?w = "w\<lparr>verify_calls := verify_calls w + k, events := events w @ quiet_passes w k\<rparr>"
  have "TestMain_wait w = TestMain_wait_loop (int k) ?w"
    using TestMain_wait_loop_failures [of k w 0] assms(1,3) by (simp add: TestMain_wait_def)
  moreover have "connectivity ?w (verify_calls ?w) = None"
    using assms(2) by simp
  ultimately show ?thesis
    by (subst (asm) TestMain_wait_loop.simps) (simp add: TestMain_wait_body_ok)
qed

lemma TestMain_wait_exhausted:
  assumes "\<forall>i<11. connectivity w (verify_calls w + i) \<noteq> None"
  shows "\<exists>e. connectivity w (verify_calls w + 10) = Some e \<and>
     TestMain_wait w =
     (Exits 1,
      w\<lparr>verify_calls := verify_calls w + 11,
        events := events w @ quiet_passes w 10 @
          [VerifyConnectivity (Some e),
           LogFatalf (''Could not connect to memgraph: '' @ message e)]\<rparr>)"
proof -
  let ?w = "w\<lparr>verify_calls := verify_calls w + 10, events := events w @ quiet_passes w 10\<rparr>"
  have loop: "TestMain_wait w = TestMain_wait_loop 10 ?w"
    using TestMain_wait_loop_failures [of 10 w 0] assms by (simp add: TestMain_wait_def)
  obtain e where e: "connectivity w (verify_calls w + 10) = Some e"
    using assms [THEN spec, of 10] by auto
  then have "connectivity ?w (verify_calls ?w) = Some e"
    by simp
  from TestMain_wait_body_fail [OF this, of 10] loop e show ?thesis
    by (subst (asm) TestMain_wait_loop.simps) simp
qed

lemma TestMain_wait_cases [case_names success exhausted]:
  obtains k where "k \<le> 10" and "\<forall>i<k. connectivity w (verify_calls w + i) \<noteq> None"
      and "connectivity w (verify_calls w + k) = None"
      and "TestMain_wait w =
        (Returns (),
         w\<lparr>verify_calls := verify_calls w + Suc k,
           events := events w @ quiet_passes w k @ [VerifyConnectivity None]\<rparr>)"
  | e where "\<forall>i<11. connectivity w (verify_calls w + i) \<noteq> None"
      and "connectivity w (verify_calls w + 10) = Some e"
      and "TestMain_wait w =
        (Exits 1,
         w\<lparr>verify_calls := verify_calls w + 11,
           events := events w @ quiet_passes w 10 @
             [VerifyConnectivity (Some e),
              LogFatalf (''Could not connect to memgraph: '' @ message e)]\<rparr>)"
proof (cases "leading_failures w 11 < 11")
  case True
  let ?k = "leading_failures w 11"
  have fails: "\<forall>i<?k. connectivity w (verify_calls w + i) \<noteq> None"
    using leading_failures_fail by blast
  have stop: "connectivity w (verify_calls w + ?k) = None"
    using True by (rule leading_failures_stop)
  from True have le: "?k \<le> 10" by simp
  show ?thesis
    using that(1) [OF le fails stop TestMain_wait_success [OF fails stop le]] .
next
  case False
  with leading_failures_le [of w 11] have "leading_failures w 11 = 11" by simp
  then have fails: "\<forall>i<11. connectivity w (verify_calls w + i) \<noteq> None"
    using leading_failures_fail [of _ w 11] by simp
  from TestMain_wait_exhausted [OF fails] that(2) [OF fails] show ?thesis
    by blast
qed

lemma probes_quiet_passes [simp]:
  "length (filter is_probe (quiet_passes w k)) = k"
  by (induction k) simp_all

lemma slog_quiet_passes [simp]:
  "filter is_slog (quiet_passes w k) = []"
  by (induction k) simp_all


lemma probes_and_sleeps_append [simp]:
  "probes_and_sleeps (xs @ ys) = probes_and_sleeps xs @ probes_and_sleeps ys"
  by (simp add: probes_and_sleeps_def)



section \<open>The claims about \<^verbatim>\<open>waitFor\<close>\<close>

text \<open>
  C1. When every probe fails, \<^verbatim>\<open>waitFor\<close> returns the \<open>ConnectivityTimeout\<close> error
  after exactly 101 calls of \<^verbatim>\<open>VerifyConnectivity\<close>: the test is \<^verbatim>\<open>attemps > 100\<close>, so
  the 100th failure is followed by one more probe. The count is read twice, from
  the call counter of the driver and from the probe events of the trace.
\<close>

theorem waitFor_exhaustion:
  assumes "\<forall>i. connectivity w i \<noteq> None"
  shows "fst (waitFor w) = Returns (Some (ConnectivityTimeout 101)) \<and>
         verify_calls (snd (waitFor w)) = verify_calls w + 101 \<and>
         length (filter is_probe (emitted w (snd (waitFor w)))) = 101"
proof -
  from assms have "\<forall>i<101. connectivity w (verify_calls w + i) \<noteq> None"
    by simp
  from waitFor_exhausted [OF this] show ?thesis
    by simp
qed

theorem waitFor_exhaustion_witness:
  "fst (waitFor refusing) = Returns (Some (ConnectivityTimeout 101)) \<and>
   verify_calls (snd (waitFor refusing)) = 101 \<and>
   length (filter is_probe (emitted refusing (snd (waitFor refusing)))) = 101"
  using waitFor_exhaustion [of refusing] by (simp add: refusing_def)

text \<open>
  C2. When the probe fails exactly \<open>k\<close> times and then succeeds, with \<open>k\<close> below the
  maximum of 100, \<^verbatim>\<open>waitFor\<close> returns \<^verbatim>\<open>nil\<close> after exactly \<open>k + 1\<close> probes, and its
  result is no \<open>ConnectivityTimeout\<close>.
\<close>

theorem waitFor_eventual_success:
  assumes "k < 100"
    and "\<forall>i<k. connectivity w (verify_calls w + i) \<noteq> None"
    and "connectivity w (verify_calls w + k) = None"
  shows "fst (waitFor w) = Returns None \<and>
         verify_calls (snd (waitFor w)) = verify_calls w + (k + 1) \<and>
         length (filter is_probe (emitted w (snd (waitFor w)))) = k + 1 \<and>
         (\<forall>n. fst (waitFor w) \<noteq> Returns (Some (ConnectivityTimeout n)))"
proof -
  from assms(1) have "k \<le> 100" by simp
  from waitFor_success [OF assms(2,3) this] show ?thesis
    by simp
qed

theorem waitFor_eventual_success_witness:
  "fst (waitFor (ready_after 3)) = Returns None \<and>
   verify_calls (snd (waitFor (ready_after 3))) = 4 \<and>
   length (filter is_probe (emitted (ready_after 3) (snd (waitFor (ready_after 3))))) = 4"
  using waitFor_eventual_success [of 3 "ready_after 3"] by (simp add: ready_after_def)

text \<open>
  C3, as amended. \<^verbatim>\<open>waitFor\<close> always returns to its caller and never calls
  \<^verbatim>\<open>log.Fatalf\<close>: it returns \<^verbatim>\<open>nil\<close>, or on exhaustion (the next 101 probes all fail)
  the error of line 60. On exhaustion it has made exactly 101 probes, all failed, and
  the counter \<^verbatim>\<open>attemps\<close> stands at 101. Whenever an error is returned, it is the plain
  value of \<^verbatim>\<open>fmt.Errorf\<close>, of type \<^verbatim>\<open>*errors.errorString\<close> and so not a typed error, and
  its message holds the number of probes this call has made. The errors of the probes
  are not passed on: two databases that fail at the same calls, whatever the errors,
  give the same result.
\<close>

theorem waitFor_returns_plain_error:
  "fst (waitFor w) =
     Returns (if \<forall>i<101. connectivity w (verify_calls w + i) \<noteq> None
              then Some (ConnectivityTimeout 101) else None) \<and>
   ((\<forall>i<101. connectivity w (verify_calls w + i) \<noteq> None) \<longrightarrow>
      verify_calls (snd (waitFor w)) = verify_calls w + 101 \<and>
      length (filter is_probe (emitted w (snd (waitFor w)))) = 101 \<and>
      length (filter is_failed_probe (emitted w (snd (waitFor w)))) = 101 \<and>
      fst (last (waitFor_passes 0 w)) = 101) \<and>
   (\<forall>e. fst (waitFor w) = Returns (Some e) \<longrightarrow>
      e = errors_New
            (''could not connect to memgraph even though it took '' @
             fmt_d (int (length (filter is_probe (emitted w (snd (waitFor w)))))) @
             '' attemps'') \<and>
      \<not> typed_error e) \<and>
   ConnectivityTimeout 101 =
     Error ''*errors.errorString''
       ''could not connect to memgraph even though it took 101 attemps'' \<and>
   filter is_fatal (emitted w (snd (waitFor w))) = [] \<and>
   ((\<forall>i. (connectivity v i = None) = (connectivity w i = None)) \<and>
      verify_calls v = verify_calls w \<longrightarrow> fst (waitFor v) = fst (waitFor w))"
proof -
  have fatal: "filter is_fatal (emitted w (snd (waitFor w))) = []"
    by (cases w rule: waitFor_cases) simp_all
  have made: "verify_calls (snd (waitFor w)) = verify_calls w + 101 \<and>
      length (filter is_probe (emitted w (snd (waitFor w)))) = 101 \<and>
      length (filter is_failed_probe (emitted w (snd (waitFor w)))) = 101 \<and>
      fst (last (waitFor_passes 0 w)) = 101"
    if fails: "\<forall>i<101. connectivity w (verify_calls w + i) \<noteq> None"
  proof -
    from fails have "\<forall>i<100. connectivity w (verify_calls w + i) \<noteq> None"
      by simp
    moreover obtain e where "connectivity w (verify_calls w + 100) = Some e"
      using fails [THEN spec, of 100] by auto
    ultimately show ?thesis
      using waitFor_exhausted [OF fails] waitFor_exhausted_counter [OF fails]
      by (simp add: failed_probes_failed_passes)
  qed
  have carried: "e = errors_New
            (''could not connect to memgraph even though it took '' @
             fmt_d (int (length (filter is_probe (emitted w (snd (waitFor w)))))) @
             '' attemps'') \<and>
      \<not> typed_error e"
    if ret: "fst (waitFor w) = Returns (Some e)" for e
  proof (cases w rule: waitFor_cases)
    case (success k)
    with ret show ?thesis by simp
  next
    case exhausted
    with ret show ?thesis
      by (auto simp: ConnectivityTimeout_def typed_error_def errors_New_def)
  qed
  from fatal made carried show ?thesis
    by (simp add: waitFor_result [of w] waitFor_result [of v] ConnectivityTimeout_101)
qed

theorem waitFor_returns_plain_error_witness:
  "fst (waitFor refusing) =
     Returns (Some (Error ''*errors.errorString''
       ''could not connect to memgraph even though it took 101 attemps'')) \<and>
   verify_calls (snd (waitFor refusing)) = 101 \<and>
   length (filter is_probe (emitted refusing (snd (waitFor refusing)))) = 101 \<and>
   fst (last (waitFor_passes 0 refusing)) = 101 \<and>
   filter is_fatal (emitted refusing (snd (waitFor refusing))) = [] \<and>
   fst (waitFor unauthorized) = fst (waitFor refusing)"
  using waitFor_returns_plain_error [of refusing unauthorized]
  by (simp add: refusing_def unauthorized_def)

text \<open>
  C3, as stated, asks for a typed \<open>ConnectivityTimeout\<close> error. Against a database that
  refuses every connection \<^verbatim>\<open>waitFor\<close> returns a value of \<^verbatim>\<open>*errors.errorString\<close>, the
  type of every \<^verbatim>\<open>errors.New\<close> value: the number of attempts is in its text only.
\<close>

theorem waitFor_error_untyped:
  "fst (waitFor refusing) =
     Returns (Some (Error ''*errors.errorString''
       ''could not connect to memgraph even though it took 101 attemps'')) \<and>
   \<not> typed_error (Error ''*errors.errorString''
       ''could not connect to memgraph even though it took 101 attemps'')"
proof -
  have "\<forall>i<101. connectivity refusing (verify_calls refusing + i) \<noteq> None"
    by (simp add: refusing_def)
  from waitFor_exhausted [OF this] show ?thesis
    by (simp add: ConnectivityTimeout_101 typed_error_def)
qed

text \<open>
  C4. When \<^verbatim>\<open>waitFor\<close> returns \<^verbatim>\<open>nil\<close>, it has made at least one probe and the last
  probe it made answered \<^verbatim>\<open>nil\<close>. In the body of the loop, \<^verbatim>\<open>break\<close> is reached exactly
  when the probe of that pass succeeded, and the \<^verbatim>\<open>return\<close> of line 60 never carries
  \<^verbatim>\<open>nil\<close>.
\<close>

theorem waitFor_no_premature_success:
  assumes "fst (waitFor w) = Returns None"
  shows "verify_calls w < verify_calls (snd (waitFor w)) \<and>
         connectivity w (verify_calls (snd (waitFor w)) - 1) = None \<and>
         last (filter is_probe (events (snd (waitFor w)))) = VerifyConnectivity None \<and>
         (fst (waitFor_body a w) = Break) = (connectivity w (verify_calls w) = None) \<and>
         fst (waitFor_body a w) \<noteq> Return None"
proof -
  have body: "(fst (waitFor_body a w) = Break) = (connectivity w (verify_calls w) = None) \<and>
         fst (waitFor_body a w) \<noteq> Return None"
    by (cases "connectivity w (verify_calls w)") (simp_all add: waitFor_body_ok waitFor_body_fail)
  have "verify_calls w < verify_calls (snd (waitFor w)) \<and>
         connectivity w (verify_calls (snd (waitFor w)) - 1) = None \<and>
         last (filter is_probe (events (snd (waitFor w)))) = VerifyConnectivity None"
  proof (cases w rule: waitFor_cases)
    case (success k)
    then show ?thesis by simp
  next
    case exhausted
    with assms show ?thesis by simp
  qed
  with body show ?thesis by simp
qed

theorem waitFor_no_premature_success_witness:
  "fst (waitFor (ready_after 2)) = Returns None \<and>
   verify_calls (snd (waitFor (ready_after 2))) = 3 \<and>
   connectivity (ready_after 2) 2 = None \<and>
   last (filter is_probe (events (snd (waitFor (ready_after 2))))) = VerifyConnectivity None"
proof -
  have ok: "fst (waitFor (ready_after 2)) = Returns None"
    by code_simp
  have calls: "verify_calls (snd (waitFor (ready_after 2))) = 3"
    by code_simp
  from waitFor_no_premature_success [OF ok, of 0] ok calls show ?thesis
    by simp
qed

text \<open>
  C5. In one call of \<^verbatim>\<open>waitFor\<close> the values of \<^verbatim>\<open>attemps\<close> at the end of the passes of the
  loop are 1, 2, ..., one more each pass, starting from zero before the first pass;
  the \<open>i\<close>-th pass has made the \<open>i\<close>-th probe; the world of the last pass is the one
  \<^verbatim>\<open>waitFor\<close> returns in. Every pass adds exactly 1 to the counter, whatever the
  probe answers. A call that follows another call counts from 1 again.
\<close>

theorem waitFor_counter:
  "map fst (waitFor_passes 0 w) = map int [1..<Suc (length (waitFor_passes 0 w))] \<and>
   map (\<lambda>p. verify_calls (snd p)) (waitFor_passes 0 w) =
     map (\<lambda>i. verify_calls w + i) [1..<Suc (length (waitFor_passes 0 w))] \<and>
   waitFor_passes 0 w \<noteq> [] \<and>
   snd (waitFor w) = snd (last (waitFor_passes 0 w)) \<and>
   fst (snd (waitFor_body a w)) = a + 1 \<and>
   fst (hd (waitFor_passes 0 (snd (waitFor w)))) = 1"
proof -
  let ?v = "snd (waitFor w)"
  let ?n = "length (waitFor_passes 0 ?v)"
  note shape = waitFor_passes_shape [of 0 ?v]
  from shape have ne: "waitFor_passes 0 ?v \<noteq> []"
    by (rule conjunct1)
  then have "[1..<Suc ?n] = 1 # [Suc 1..<Suc ?n]"
    by (intro upt_conv_Cons) simp
  with shape [THEN conjunct2, THEN conjunct1]
  have "map fst (waitFor_passes 0 ?v) = map (\<lambda>i. 0 + int i) (1 # [Suc 1..<Suc ?n])"
    by (simp only:)
  then have "hd (map fst (waitFor_passes 0 ?v)) = 1"
    by (simp del: upt_Suc)
  with ne have "fst (hd (waitFor_passes 0 ?v)) = 1"
    by (simp add: hd_map)
  with waitFor_passes_shape [of 0 w] waitFor_body_counter [of a w] show ?thesis
    by (simp add: waitFor_def)
qed

theorem waitFor_counter_witness:
  "map fst (waitFor_passes 0 (ready_after 2)) = [1, 2, 3] \<and>
   map (\<lambda>p. verify_calls (snd p)) (waitFor_passes 0 (ready_after 2)) = [1, 2, 3]"
proof -
  have n: "length (waitFor_passes 0 (ready_after 2)) = 3"
    by code_simp
  have calls: "verify_calls (ready_after 2) = 0"
    by (simp add: ready_after_def)
  from waitFor_counter [of "ready_after 2" 0] show ?thesis
    unfolding n calls by (simp add: upt_rec)
qed



text \<open>
  C7. The \<^verbatim>\<open>slog\<close> lines of one call of \<^verbatim>\<open>waitFor\<close> are one error line for each failed
  probe, numbered 1, 2, ... in order, followed by one info line exactly when the call
  succeeds. The lines are write-only: \<^verbatim>\<open>slog.Error\<close> and \<^verbatim>\<open>slog.Info\<close> only append to
  the trace, and the result, the number of probes and the effects of \<^verbatim>\<open>waitFor\<close> do not
  depend on what the trace held before.
\<close>

theorem waitFor_events:
  "filter is_slog (emitted w (snd (waitFor w))) =
     map (\<lambda>i. SlogError ''Could not connect to memgraph'' ''attempt'' (int i))
       [1..<Suc (length (filter is_failed_probe (emitted w (snd (waitFor w)))))] @
     (if fst (waitFor w) = Returns None then [SlogInfo ''Connected to memgraph''] else []) \<and>
   fst (waitFor (w\<lparr>events := tr\<rparr>)) = fst (waitFor w) \<and>
   verify_calls (snd (waitFor (w\<lparr>events := tr\<rparr>))) = verify_calls (snd (waitFor w)) \<and>
   emitted (w\<lparr>events := tr\<rparr>) (snd (waitFor (w\<lparr>events := tr\<rparr>))) =
     emitted w (snd (waitFor w)) \<and>
   slog_Error msg key n w = w\<lparr>events := events w @ [SlogError msg key n]\<rparr> \<and>
   slog_Info msg w = w\<lparr>events := events w @ [SlogInfo msg]\<rparr>"
proof -
  have "filter is_slog (emitted w (snd (waitFor w))) =
     map (\<lambda>i. SlogError ''Could not connect to memgraph'' ''attempt'' (int i))
       [1..<Suc (length (filter is_failed_probe (emitted w (snd (waitFor w)))))] @
     (if fst (waitFor w) = Returns None then [SlogInfo ''Connected to memgraph''] else [])"
  proof (cases w rule: waitFor_cases)
    case (success k)
    then show ?thesis
      by (simp add: slog_failed_passes_0 failed_probes_failed_passes)
  next
    case exhausted
    then have "\<forall>i<100. connectivity w (verify_calls w + i) \<noteq> None"
      by simp
    moreover obtain e where "connectivity w (verify_calls w + 100) = Some e"
      using exhausted(1) [THEN spec, of 100] by auto
    moreover have "[Suc 0..<102] = [Suc 0..<101] @ [101]"
    proof -
      have step: "[Suc 0..<Suc 101] = [Suc 0..<101] @ [101]"
        by (rule upt_Suc_append) simp
      have eq: "Suc 101 = 102"
        by simp
      show ?thesis
        using step unfolding eq .
    qed
    ultimately show ?thesis
      using exhausted(2) by (simp add: slog_failed_passes_0 failed_probes_failed_passes)
  qed
  with waitFor_trace_frame [where w = w and tr = tr] show ?thesis
    by (simp add: slog_Error_def slog_Info_def emit_def)
qed

theorem waitFor_events_witness:
  "filter is_slog (emitted (ready_after 2) (snd (waitFor (ready_after 2)))) =
     [SlogError ''Could not connect to memgraph'' ''attempt'' 1,
      SlogError ''Could not connect to memgraph'' ''attempt'' 2,
      SlogInfo ''Connected to memgraph'']"
proof -
  have ok: "fst (waitFor (ready_after 2)) = Returns None"
    by code_simp
  have n: "length (filter is_failed_probe (emitted (ready_after 2) (snd (waitFor (ready_after 2))))) = 2"
    by code_simp
  from waitFor_events [of "ready_after 2"] show ?thesis
    unfolding ok n by (simp add: upt_rec)
qed

section \<open>The claims about the count queries and the test harness\<close>

text \<open>
  C8. \<^verbatim>\<open>countAllNodes\<close> and \<^verbatim>\<open>countAllEdges\<close> return \<^verbatim>\<open>(0, err)\<close> when the query fails.
  When the query succeeds they panic if the result has no record (index out of
  range) and if the first value of the first record is not an \<^verbatim>\<open>int64\<close> (failed
  type assertion); when that value is an \<^verbatim>\<open>int64\<close> they return it with \<^verbatim>\<open>nil\<close>.
\<close>

theorem countAll_partial:
  "(query_result w (query_calls w) ''MATCH (n) RETURN count(n);'' = Inl err \<longrightarrow>
      fst (countAllNodes w) = Returns (0, Some err)) \<and>
   (query_result w (query_calls w) ''MATCH (n) RETURN count(n);'' = Inr res \<and>
      Records res = [] \<longrightarrow> fst (countAllNodes w) = Panics IndexOutOfRange) \<and>
   (query_result w (query_calls w) ''MATCH (n) RETURN count(n);'' = Inr res \<and>
      Records res = Some r # rs \<and> Values r = v # vs \<and> (\<forall>n. v \<noteq> Int64 n) \<longrightarrow>
      fst (countAllNodes w) = Panics TypeAssertion) \<and>
   (query_result w (query_calls w) ''MATCH (n) RETURN count(n);'' = Inr res \<and>
      Records res = Some r # rs \<and> Values r = Int64 n # vs \<longrightarrow>
      fst (countAllNodes w) = Returns (n, None)) \<and>
   (query_result w (query_calls w) ''MATCH ()-[]->() RETURN count(*);'' = Inl err \<longrightarrow>
      fst (countAllEdges w) = Returns (0, Some err)) \<and>
   (query_result w (query_calls w) ''MATCH ()-[]->() RETURN count(*);'' = Inr res \<and>
      Records res = [] \<longrightarrow> fst (countAllEdges w) = Panics IndexOutOfRange) \<and>
   (query_result w (query_calls w) ''MATCH ()-[]->() RETURN count(*);'' = Inr res \<and>
      Records res = Some r # rs \<and> Values r = v # vs \<and> (\<forall>n. v \<noteq> Int64 n) \<longrightarrow>
      fst (countAllEdges w) = Panics TypeAssertion) \<and>
   (query_result w (query_calls w) ''MATCH ()-[]->() RETURN count(*);'' = Inr res \<and>
      Records res = Some r # rs \<and> Values r = Int64 n # vs \<longrightarrow>
      fst (countAllEdges w) = Returns (n, None))"
  by (cases v)
     (simp_all add: countAllNodes_def countAllEdges_def neo4j_ExecuteQuery_def Let_def)

theorem countAll_partial_witness:
  "fst (countAllNodes (answering (Inl (Error ''*neo4j.ConnectivityError'' ''unavailable'')))) =
     Returns (0, Some (Error ''*neo4j.ConnectivityError'' ''unavailable'')) \<and>
   fst (countAllNodes (answering (Inr \<lparr>Records = []\<rparr>))) = Panics IndexOutOfRange \<and>
   fst (countAllNodes (answering (Inr \<lparr>Records = [Some \<lparr>Values = [String ''9'']\<rparr>]\<rparr>))) =
     Panics TypeAssertion \<and>
   fst (countAllEdges (answering (Inl (Error ''*neo4j.ConnectivityError'' ''unavailable'')))) =
     Returns (0, Some (Error ''*neo4j.ConnectivityError'' ''unavailable'')) \<and>
   fst (countAllEdges (answering (Inr \<lparr>Records = []\<rparr>))) = Panics IndexOutOfRange \<and>
   fst (countAllEdges (answering (Inr \<lparr>Records = [Some \<lparr>Values = [String ''9'']\<rparr>]\<rparr>))) =
     Panics TypeAssertion"
  using
    countAll_partial [of "answering (Inl (Error ''*neo4j.ConnectivityError'' ''unavailable''))" "Error ''*neo4j.ConnectivityError'' ''unavailable''"]
    countAll_partial [of "answering (Inr \<lparr>Records = []\<rparr>)" _ "\<lparr>Records = []\<rparr>"]
    countAll_partial [of "answering (Inr \<lparr>Records = [Some \<lparr>Values = [String ''9'']\<rparr>]\<rparr>)" _
      "\<lparr>Records = [Some \<lparr>Values = [String ''9'']\<rparr>]\<rparr>" "\<lparr>Values = [String ''9'']\<rparr>" "[]"
      "String ''9''" "[]"]
  by (simp add: answering_def)

text \<open>
  C9. \<^verbatim>\<open>deleteEverything\<close> never returns an error: when the query fails it writes the
  message with \<^verbatim>\<open>log.Fatalf\<close> and the process exits with status 1; when the query
  succeeds it returns \<^verbatim>\<open>nil\<close>.
\<close>

theorem deleteEverything_never_errors:
  "fst (deleteEverything w) \<noteq> Returns (Some e) \<and>
   (query_result w (query_calls w) ''MATCH (n) DETACH DELETE n;'' = Inl err \<longrightarrow>
      fst (deleteEverything w) = Exits 1 \<and>
      last (events (snd (deleteEverything w))) =
        LogFatalf (''Could not delete everything: '' @ message err)) \<and>
   (query_result w (query_calls w) ''MATCH (n) DETACH DELETE n;'' = Inr res \<longrightarrow>
      fst (deleteEverything w) = Returns None)"
  by (cases "query_result w (query_calls w) ''MATCH (n) DETACH DELETE n;''")
     (simp_all add: deleteEverything_def neo4j_ExecuteQuery_def driver_NewSession_def
        session_Close_def log_Fatalf_def emit_def Let_def)

theorem deleteEverything_never_errors_witness:
  "fst (deleteEverything (answering (Inl (Error ''*neo4j.ConnectivityError'' ''unavailable'')))) = Exits 1 \<and>
   last (events (snd (deleteEverything (answering (Inl (Error ''*neo4j.ConnectivityError'' ''unavailable'')))))) =
     LogFatalf ''Could not delete everything: unavailable'' \<and>
   fst (deleteEverything (answering (Inr \<lparr>Records = []\<rparr>))) = Returns None"
  using
    deleteEverything_never_errors [of "answering (Inl (Error ''*neo4j.ConnectivityError'' ''unavailable''))" _
      "Error ''*neo4j.ConnectivityError'' ''unavailable''"]
    deleteEverything_never_errors [of "answering (Inr \<lparr>Records = []\<rparr>)" _ _ "\<lparr>Records = []\<rparr>"]
  by (simp add: answering_def)

text \<open>
  C10. The readiness loop of \<^verbatim>\<open>TestMain\<close> is its own loop, and differs from \<^verbatim>\<open>waitFor\<close>
  in more than the bound. When the next 11 probes fail it ends the process with
  \<^verbatim>\<open>log.Fatalf\<close>, after exactly 11 probes, the message holding the error of the
  last probe; \<^verbatim>\<open>waitFor\<close> in the same world has by then written at least 11 lines
  with \<^verbatim>\<open>slog\<close>. In every world the loop of \<^verbatim>\<open>TestMain\<close> writes no \<^verbatim>\<open>slog\<close> line,
  while \<^verbatim>\<open>waitFor\<close> always returns to its caller and never calls \<^verbatim>\<open>log.Fatalf\<close>.
\<close>

theorem TestMain_wait_differs:
  "((\<forall>i<11. connectivity w (verify_calls w + i) \<noteq> None) \<longrightarrow>
      fst (TestMain_wait w) = Exits 1 \<and>
      verify_calls (snd (TestMain_wait w)) = verify_calls w + 11 \<and>
      (\<exists>e. connectivity w (verify_calls w + 10) = Some e \<and>
           last (emitted w (snd (TestMain_wait w))) =
             LogFatalf (''Could not connect to memgraph: '' @ message e)) \<and>
      11 \<le> length (filter is_slog (emitted w (snd (waitFor w))))) \<and>
   filter is_slog (emitted w (snd (TestMain_wait w))) = [] \<and>
   (\<exists>r. fst (waitFor w) = Returns r) \<and>
   filter is_fatal (emitted w (snd (waitFor w))) = []"
proof -
  have quiet: "filter is_slog (emitted w (snd (TestMain_wait w))) = []"
    by (cases w rule: TestMain_wait_cases) simp_all
  have returns: "(\<exists>r. fst (waitFor w) = Returns r) \<and>
      filter is_fatal (emitted w (snd (waitFor w))) = []"
    by (cases w rule: waitFor_cases) simp_all
  have exhaustion: "fst (TestMain_wait w) = Exits 1 \<and>
      verify_calls (snd (TestMain_wait w)) = verify_calls w + 11 \<and>
      (\<exists>e. connectivity w (verify_calls w + 10) = Some e \<and>
           last (emitted w (snd (TestMain_wait w))) =
             LogFatalf (''Could not connect to memgraph: '' @ message e)) \<and>
      11 \<le> length (filter is_slog (emitted w (snd (waitFor w))))"
    if fails: "\<forall>i<11. connectivity w (verify_calls w + i) \<noteq> None"
  proof -
    from TestMain_wait_exhausted [OF fails] obtain e
      where e: "connectivity w (verify_calls w + 10) = Some e"
        and run: "TestMain_wait w =
          (Exits 1,
           w\<lparr>verify_calls := verify_calls w + 11,
             events := events w @ quiet_passes w 10 @
               [VerifyConnectivity (Some e),
                LogFatalf (''Could not connect to memgraph: '' @ message e)]\<rparr>)"
      by blast
    have "11 \<le> length (filter is_slog (emitted w (snd (waitFor w))))"
    proof (cases w rule: waitFor_cases)
      case (success k)
      from fails success(3) have "11 \<le> k"
        by (meson not_le)
      with success(4) show ?thesis
        by (simp add: slog_failed_passes_0)
    next
      case exhausted
      then show ?thesis
        by (simp add: slog_failed_passes_0)
    qed
    with e run show ?thesis
      by simp
  qed
  from quiet returns exhaustion show ?thesis
    by blast
qed

theorem TestMain_wait_differs_witness:
  "fst (TestMain_wait refusing) = Exits 1 \<and>
   verify_calls (snd (TestMain_wait refusing)) = 11 \<and>
   last (emitted refusing (snd (TestMain_wait refusing))) =
     LogFatalf ''Could not connect to memgraph: connection refused'' \<and>
   filter is_slog (emitted refusing (snd (TestMain_wait refusing))) = [] \<and>
   fst (waitFor refusing) = Returns (Some (ConnectivityTimeout 101))"
proof -
  have "fst (waitFor refusing) = Returns (Some (ConnectivityTimeout 101))"
    using waitFor_result [of refusing] by (simp add: refusing_def)
  with TestMain_wait_differs [of refusing] show ?thesis
    by (simp add: refusing_def)
qed

end
